theory Spec2Isabelle
  imports Main "HOL-Library.Word"
begin

section \<open>Python strings\<close>

text \<open>
  A Python \<^verbatim>\<open>str\<close> is a sequence of Unicode code points, so it is modelled as a list of
  natural numbers. \<open>py\<close> turns an ASCII literal into such a string.
\<close>

type_synonym pystr = "nat list"

definition py :: "string \<Rightarrow> pystr" where
  "py s = map of_char s"

text \<open>\<^verbatim>\<open>str(n)\<close> for an integer, as the f-string interpolation formats it.\<close>

fun dec_digits :: "nat \<Rightarrow> pystr" where
  "dec_digits n = (if n < 10 then [48 + n] else dec_digits (n div 10) @ [48 + n mod 10])"

declare dec_digits.simps [simp del]

definition str_int :: "int \<Rightarrow> pystr" where
  "str_int i = (if i < 0 then 45 # dec_digits (nat (- i)) else dec_digits (nat i))"

text \<open>
  \<^verbatim>\<open>str.isspace\<close> on one code point: the characters that \<^verbatim>\<open>str.strip()\<close> without an
  argument removes.
\<close>

definition py_isspace :: "nat \<Rightarrow> bool" where
  "py_isspace c \<longleftrightarrow>
     (9 \<le> c \<and> c \<le> 13) \<or> (28 \<le> c \<and> c \<le> 32) \<or> c = 133 \<or> c = 160 \<or> c = 5760 \<or>
     (8192 \<le> c \<and> c \<le> 8202) \<or> c = 8232 \<or> c = 8233 \<or> c = 8239 \<or> c = 8287 \<or> c = 12288"

text \<open>
  \<^verbatim>\<open>s.strip()\<close> and \<^verbatim>\<open>s.strip(chars)\<close>: both remove, from each end, the longest run of
  characters of a set; \<^verbatim>\<open>chars\<close> is read as a set of characters, not as a token.
\<close>

definition strip_where :: "(nat \<Rightarrow> bool) \<Rightarrow> pystr \<Rightarrow> pystr" where
  "strip_where P s = rev (dropWhile P (rev (dropWhile P s)))"

definition py_strip :: "pystr \<Rightarrow> pystr" where
  "py_strip s = strip_where py_isspace s"

definition py_strip_chars :: "pystr \<Rightarrow> pystr \<Rightarrow> pystr" where
  "py_strip_chars chars s = strip_where (\<lambda>c. c \<in> set chars) s"

section \<open>Exceptions, values and the object store\<close>

text \<open>
  The response of the endpoint, as far as the code reads it: \<^verbatim>\<open>status_code\<close> and
  \<^verbatim>\<open>text\<close>, here \<open>response_text\<close>.
\<close>

datatype response = Response (status_code: nat) (response_text: pystr)

text \<open>
  The exceptions are those derived from \<^verbatim>\<open>Exception\<close>. \<open>HTTPError\<close>, \<open>ConnectionError\<close>,
  \<open>Timeout\<close> and \<open>RequestException\<close> are the classes of \<^verbatim>\<open>requests.exceptions\<close> (the last
  one stands for any other subclass of \<^verbatim>\<open>RequestException\<close>); \<open>OtherException\<close> is any
  other exception class. An \<open>HTTPError\<close> carries the response it was raised for, another
  \<open>RequestException\<close> may carry one, a connection error and a timeout carry none.
  \<open>UnicodeEncodeError\<close> is what \<^verbatim>\<open>print\<close> raises on a text that the encoding of the
  standard output cannot encode. \<open>SystemError\<close> is raised by the model where a reference
  points outside the store, which no Python program can build.
\<close>

datatype exn =
    JSONDecodeError
  | KeyError pystr
  | TypeError
  | AttributeError
  | IndexError
  | SystemError
  | UnicodeEncodeError
  | HTTPError response
  | ConnectionError
  | Timeout
  | RequestException nat "response option"
  | OtherException nat

fun is_RequestException :: "exn \<Rightarrow> bool" where
  "is_RequestException (HTTPError _) = True"
| "is_RequestException ConnectionError = True"
| "is_RequestException Timeout = True"
| "is_RequestException (RequestException _ _) = True"
| "is_RequestException _ = False"

text \<open>\<^verbatim>\<open>e.response\<close> of an exception of the requests library: a response or \<^verbatim>\<open>None\<close>.\<close>

fun exn_response :: "exn \<Rightarrow> response option" where
  "exn_response (HTTPError r) = Some r"
| "exn_response (RequestException _ r) = r"
| "exn_response _ = None"

text \<open>
  Lists and dictionaries are mutable objects: a value refers to them by address, and the
  store maps addresses to objects. The other values are immutable. A float is its 64-bit
  pattern. Dictionaries keep insertion order and have string keys.
\<close>

type_synonym addr = nat

datatype pyval =
    PNone
  | PBool bool
  | PInt int
  | PFloat "64 word"
  | PStr pystr
  | PRef addr

datatype pyobj =
    OList "pyval list"
  | ODict "(pystr \<times> pyval) list"

type_synonym heap = "pyobj list"

definition heap_get :: "heap \<Rightarrow> addr \<Rightarrow> pyobj option" where
  "heap_get h a = (if a < length h then Some (h ! a) else None)"

definition heap_alloc :: "heap \<Rightarrow> pyobj \<Rightarrow> heap \<times> addr" where
  "heap_alloc h ob = (h @ [ob], length h)"

fun dict_get :: "(pystr \<times> pyval) list \<Rightarrow> pystr \<Rightarrow> pyval option" where
  "dict_get [] k = None"
| "dict_get ((k', v) # kvs) k = (if k' = k then Some v else dict_get kvs k)"

fun dict_set :: "(pystr \<times> pyval) list \<Rightarrow> pystr \<Rightarrow> pyval \<Rightarrow> (pystr \<times> pyval) list" where
  "dict_set [] k v = [(k, v)]"
| "dict_set ((k', v') # kvs) k v =
     (if k' = k then (k, v) # kvs else (k', v') # dict_set kvs k v)"

text \<open>Truth value of an object, as \<^verbatim>\<open>not x\<close> tests it.\<close>

fun py_bool :: "heap \<Rightarrow> pyval \<Rightarrow> exn + bool" where
  "py_bool h PNone = Inr False"
| "py_bool h (PBool b) = Inr b"
| "py_bool h (PInt i) = Inr (i \<noteq> 0)"
| "py_bool h (PFloat w) = Inr (w \<noteq> 0 \<and> w \<noteq> 0x8000000000000000)"
| "py_bool h (PStr s) = Inr (s \<noteq> [])"
| "py_bool h (PRef a) =
     (case heap_get h a of
        None \<Rightarrow> Inl SystemError
      | Some (OList xs) \<Rightarrow> Inr (xs \<noteq> [])
      | Some (ODict kvs) \<Rightarrow> Inr (kvs \<noteq> []))"

text \<open>
  The items a \<^verbatim>\<open>for\<close> loop visits: the elements of a list, the keys of a dictionary,
  the characters of a string; the other values are not iterable.
\<close>

fun py_iter :: "heap \<Rightarrow> pyval \<Rightarrow> exn + pyval list" where
  "py_iter h (PStr s) = Inr (map (\<lambda>c. PStr [c]) s)"
| "py_iter h (PRef a) =
     (case heap_get h a of
        None \<Rightarrow> Inl SystemError
      | Some (OList xs) \<Rightarrow> Inr xs
      | Some (ODict kvs) \<Rightarrow> Inr (map (\<lambda>kv. PStr (fst kv)) kvs))"
| "py_iter h _ = Inl TypeError"

text \<open>\<^verbatim>\<open>x[key]\<close> and \<^verbatim>\<open>x[key] = v\<close> for a string key.\<close>

fun py_getitem :: "heap \<Rightarrow> pyval \<Rightarrow> pystr \<Rightarrow> exn + pyval" where
  "py_getitem h (PRef a) k =
     (case heap_get h a of
        None \<Rightarrow> Inl SystemError
      | Some (OList xs) \<Rightarrow> Inl TypeError
      | Some (ODict kvs) \<Rightarrow> (case dict_get kvs k of None \<Rightarrow> Inl (KeyError k) | Some v \<Rightarrow> Inr v))"
| "py_getitem h _ k = Inl TypeError"

fun py_setitem :: "heap \<Rightarrow> pyval \<Rightarrow> pystr \<Rightarrow> pyval \<Rightarrow> exn + heap" where
  "py_setitem h (PRef a) k v =
     (case heap_get h a of
        None \<Rightarrow> Inl SystemError
      | Some (OList xs) \<Rightarrow> Inl TypeError
      | Some (ODict kvs) \<Rightarrow> Inr (h[a := ODict (dict_set kvs k v)]))"
| "py_setitem h _ k v = Inl TypeError"

text \<open>\<^verbatim>\<open>xs.append(v)\<close> on the list at an address.\<close>

definition list_append :: "heap \<Rightarrow> addr \<Rightarrow> pyval \<Rightarrow> exn + heap" where
  "list_append h a v =
     (case heap_get h a of
        None \<Rightarrow> Inl SystemError
      | Some (OList xs) \<Rightarrow> Inr (h[a := OList (xs @ [v])])
      | Some (ODict kvs) \<Rightarrow> Inl AttributeError)"

section \<open>The external collaborators\<close>

text \<open>
  What \<^verbatim>\<open>json.loads\<close> returns, before it is built in the store: a tree.
\<close>

datatype json =
    JNull
  | JBool bool
  | JInt int
  | JFloat "64 word"
  | JStr pystr
  | JArr "json list"
  | JObj "(pystr \<times> json) list"

text \<open>
  \<^verbatim>\<open>json.loads\<close> builds fresh objects: every array and every object of the tree becomes a
  new list or dictionary in the store. A repeated key of an object keeps its first
  position and its last value, as \<^verbatim>\<open>dict\<close> does.
\<close>

fun alloc_json :: "heap \<Rightarrow> json \<Rightarrow> heap \<times> pyval"
  and alloc_items :: "heap \<Rightarrow> json list \<Rightarrow> heap \<times> pyval list"
  and alloc_members ::
    "heap \<Rightarrow> (pystr \<times> pyval) list \<Rightarrow> (pystr \<times> json) list \<Rightarrow> heap \<times> (pystr \<times> pyval) list"
where
  "alloc_json h JNull = (h, PNone)"
| "alloc_json h (JBool b) = (h, PBool b)"
| "alloc_json h (JInt i) = (h, PInt i)"
| "alloc_json h (JFloat w) = (h, PFloat w)"
| "alloc_json h (JStr s) = (h, PStr s)"
| "alloc_json h (JArr js) =
     (case alloc_items h js of (h1, vs) \<Rightarrow> (h1 @ [OList vs], PRef (length h1)))"
| "alloc_json h (JObj ms) =
     (case alloc_members h [] ms of (h1, kvs) \<Rightarrow> (h1 @ [ODict kvs], PRef (length h1)))"
| "alloc_items h [] = (h, [])"
| "alloc_items h (j # js) =
     (case alloc_json h j of (h1, v) \<Rightarrow>
        (case alloc_items h1 js of (h2, vs) \<Rightarrow> (h2, v # vs)))"
| "alloc_members h kvs [] = (h, kvs)"
| "alloc_members h kvs (m # ms) =
     (case alloc_json h (snd m) of (h1, v) \<Rightarrow> alloc_members h1 (dict_set kvs (fst m) v) ms)"

text \<open>
  The environment of a run. \<open>create\<close> is the completion capability
  (\<^verbatim>\<open>client.chat.completions.create\<close>) as a function of the user prompt, the other arguments
  being constants: it raises, or returns the \<^verbatim>\<open>message.content\<close> of each choice
  (\<open>None\<close> where the content is \<^verbatim>\<open>None\<close>). \<open>json_loads\<close> is \<^verbatim>\<open>json.loads\<close>.
  \<open>json_dumps\<close> is the \<^verbatim>\<open>json.dumps\<close> of the log line, which reads the payload in the store
  and may raise. \<open>post\<close> is \<^verbatim>\<open>requests.post\<close> to the configured URL with the configured
  headers and the 30 second timeout: it reads the payload in the store and raises or
  returns the response. None of them writes to the store. \<open>exn_str\<close> is \<^verbatim>\<open>str(e)\<close>, the
  message that an exception carries. \<open>stdout_encodes\<close> tells which code points the encoding
  of the standard output can encode.
\<close>

record env =
  create :: "pystr \<Rightarrow> exn + pystr option list"
  json_loads :: "pystr \<Rightarrow> exn + json"
  json_dumps :: "heap \<Rightarrow> pyval \<Rightarrow> exn option"
  post :: "heap \<Rightarrow> pyval \<Rightarrow> exn + response"
  exn_str :: "exn \<Rightarrow> pystr"
  stdout_encodes :: "nat \<Rightarrow> bool"

text \<open>
  \<^verbatim>\<open>print\<close> of one line of text. Every encoding of a standard output encodes ASCII; on
  another character that the encoding lacks, the write raises \<open>UnicodeEncodeError\<close>. The
  log lines of the three functions whose text is fixed ASCII (the URL and the category
  names are ASCII constants of \<open>main\<close>, \<^verbatim>\<open>json.dumps\<close> escapes what is not ASCII) cannot
  raise it and are left out; the lines that print an exception, the text of the
  completion or the text of a response are calls of \<open>py_print\<close>.
\<close>

definition encodable :: "env \<Rightarrow> pystr \<Rightarrow> bool" where
  "encodable env s = list_all (\<lambda>c. c < 128 \<or> stdout_encodes env c) s"

definition py_print :: "env \<Rightarrow> pystr \<Rightarrow> exn option" where
  "py_print env s = (if encodable env s then None else Some UnicodeEncodeError)"

section \<open>The generator\<close>

definition build_prompt :: "pystr \<Rightarrow> int \<Rightarrow> int \<Rightarrow> pystr" where
  \<open>build_prompt category num_questions num_fillers =
     py ''Generate '' @ str_int num_questions @ py '' questions about '' @ category @
     py ''.\<newline>For each question, provide:\<newline>'' @
     py ''1. A clear, concise question text\<newline>'' @
     py ''2. A single correct answer (factually accurate)\<newline>'' @
     py ''3. '' @ str_int num_fillers @ py '' incorrect but plausible filler answers\<newline>'' @
     py ''\<newline>Important guidelines:\<newline>'' @
     py ''- Questions should be factually accurate and verifiable\<newline>'' @
     py ''- Avoid opinion-based questions\<newline>'' @
     py ''- Ensure answers are not too similar to each other\<newline>'' @
     py ''- Keep questions and answers concise\<newline>'' @
     py ''- Format filler_answers as a JSON array of strings\<newline>'' @
     py ''\<newline>Format the response as a JSON array of objects with this exact structure:\<newline>'' @
     py ''[\<newline>  {\<newline>'' @
     py ''    "text": "What is the capital of France?",\<newline>'' @
     py ''    "answer": "Paris",\<newline>'' @
     py ''    "filler_answers": ["London", "Berlin", "Madrid"]\<newline>'' @
     py ''  }\<newline>]\<newline>'' @
     py ''\<newline>ONLY return the JSON array, no other text or markdown formatting.''\<close>

text \<open>
  The cleaning of the returned text:
  \<^verbatim>\<open>content.strip().strip("```json").strip("```").strip()\<close>.
\<close>

definition clean :: "pystr \<Rightarrow> pystr" where
  "clean content =
     py_strip (py_strip_chars (py ''```'') (py_strip_chars (py ''```json'') (py_strip content)))"

text \<open>The loop \<^verbatim>\<open>for q in questions: q["category"] = category\<close> over the items.\<close>

fun annotate :: "heap \<Rightarrow> pyval list \<Rightarrow> pystr \<Rightarrow> heap \<times> exn option" where
  "annotate h [] category = (h, None)"
| "annotate h (q # qs) category =
     (case py_setitem h q (py ''category'') (PStr category) of
        Inl e \<Rightarrow> (h, Some e)
      | Inr h' \<Rightarrow> annotate h' qs category)"

text \<open>
  The body of the \<^verbatim>\<open>try\<close>: the store it leaves, the local variable \<^verbatim>\<open>content\<close> where it
  is bound to a text (after line 76 it is the cleaned text), and the exception it raised
  or the value it returns.
\<close>

definition generate_try ::
  "env \<Rightarrow> heap \<Rightarrow> pystr \<Rightarrow> pystr \<Rightarrow> heap \<times> pystr option \<times> (exn + pyval)" where
  "generate_try env h prompt category =
     (case create env prompt of
        Inl e \<Rightarrow> (h, None, Inl e)
      | Inr choices \<Rightarrow>
          (case choices of
             [] \<Rightarrow> (h, None, Inl IndexError)
           | message_content # _ \<Rightarrow>
               (case message_content of
                  None \<Rightarrow> (h, None, Inl AttributeError)
                | Some raw \<Rightarrow>
                    (let content = clean raw in
                     case json_loads env content of
                       Inl e \<Rightarrow> (h, Some content, Inl e)
                     | Inr parsed \<Rightarrow>
                         (case alloc_json h parsed of (h1, questions) \<Rightarrow>
                            (case py_iter h1 questions of
                               Inl e \<Rightarrow> (h1, Some content, Inl e)
                             | Inr items \<Rightarrow>
                                 (case annotate h1 items category of
                                    (h2, Some e) \<Rightarrow> (h2, Some content, Inl e)
                                  | (h2, None) \<Rightarrow> (h2, Some content, Inr questions))))))))"

text \<open>
  The two handlers. Each prints and then returns a new empty list; an exception that a
  \<^verbatim>\<open>print\<close> of a handler raises is caught by no handler and leaves the function.
\<close>

definition return_empty :: "heap \<Rightarrow> heap \<times> (exn + pyval)" where
  "return_empty h = (case heap_alloc h (OList []) of (h', a) \<Rightarrow> (h', Inr (PRef a)))"

definition generate_handler :: "env \<Rightarrow> heap \<Rightarrow> pystr option \<Rightarrow> exn \<Rightarrow> heap \<times> (exn + pyval)" where
  "generate_handler env h content e =
     (if e = JSONDecodeError
      then
        (case py_print env (py ''Error parsing JSON response: '' @ exn_str env e) of
           Some pe \<Rightarrow> (h, Inl pe)
         | None \<Rightarrow>
        (case py_print env (py ''Raw response: '' @
                 (case content of Some c \<Rightarrow> c | None \<Rightarrow> py ''No content'')) of
           Some pe \<Rightarrow> (h, Inl pe)
         | None \<Rightarrow> return_empty h))
      else
        (case py_print env (py ''Error generating questions: '' @ exn_str env e) of
           Some pe \<Rightarrow> (h, Inl pe)
         | None \<Rightarrow> return_empty h))"

text \<open>
  \<open>generate_questions\<close> gives the store after the call, the prompts passed to the
  completion capability (one entry for each call made), and the exception that leaves
  the function or the value it returns.
\<close>

definition generate_questions ::
  "env \<Rightarrow> heap \<Rightarrow> pystr \<Rightarrow> int \<Rightarrow> int \<Rightarrow> heap \<times> pystr list \<times> (exn + pyval)" where
  "generate_questions env h category num_questions num_fillers =
     (let num_questions = max 1 (min 10 num_questions);
          num_fillers = max 3 (min 5 num_fillers);
          prompt = build_prompt category num_questions num_fillers
      in case generate_try env h prompt category of
           (h', content, Inr questions) \<Rightarrow> (h', [prompt], Inr questions)
         | (h', content, Inl e) \<Rightarrow>
             (case generate_handler env h' content e of (h'', r) \<Rightarrow> (h'', [prompt], r)))"

section \<open>The publisher\<close>

text \<open>
  The loop that builds \<^verbatim>\<open>formatted_questions\<close>, the list at address \<open>fq\<close>: the four
  lookups in the order of the dictionary display, a new dictionary, the append.
\<close>

fun reshape :: "heap \<Rightarrow> addr \<Rightarrow> pyval list \<Rightarrow> heap \<times> exn option" where
  "reshape h fq [] = (h, None)"
| "reshape h fq (q # qs) =
     (case py_getitem h q (py ''text'') of
        Inl e \<Rightarrow> (h, Some e)
      | Inr text \<Rightarrow>
     (case py_getitem h q (py ''answer'') of
        Inl e \<Rightarrow> (h, Some e)
      | Inr answer \<Rightarrow>
     (case py_getitem h q (py ''category'') of
        Inl e \<Rightarrow> (h, Some e)
      | Inr category \<Rightarrow>
     (case py_getitem h q (py ''filler_answers'') of
        Inl e \<Rightarrow> (h, Some e)
      | Inr filler_answers \<Rightarrow>
     (case heap_alloc h (ODict [(py ''text'', text), (py ''answer'', answer),
                                (py ''category'', category),
                                (py ''filler_answers'', filler_answers)]) of
        (h1, d) \<Rightarrow>
     (case list_append h1 fq (PRef d) of
        Inl e \<Rightarrow> (h1, Some e)
      | Inr h2 \<Rightarrow> reshape h2 fq qs))))))"

text \<open>
  \<^verbatim>\<open>response.raise_for_status()\<close> of the requests library raises \<open>HTTPError\<close> for a
  status from 400 to 599 and for no other.
\<close>

definition raise_for_status :: "response \<Rightarrow> exn option" where
  "raise_for_status r =
     (if 400 \<le> status_code r \<and> status_code r < 600 then Some (HTTPError r) else None)"

text \<open>
  \<open>upload_questions\<close> gives the store after the call, the payloads passed to
  \<^verbatim>\<open>requests.post\<close> (one entry for each call made), and the exception that leaves the
  function or the value it returns.
\<close>

text \<open>
  The handler of \<^verbatim>\<open>RequestException\<close>: it prints the exception and, where the exception
  carries a response, its status code and its text, and then returns \<open>False\<close>. An
  exception of another class is not caught; nor is one that a \<^verbatim>\<open>print\<close> of the handler
  raises.
\<close>

definition upload_handler ::
  "env \<Rightarrow> heap \<Rightarrow> pyval list \<Rightarrow> exn \<Rightarrow> heap \<times> pyval list \<times> (exn + bool)" where
  "upload_handler env h posts e =
     (if is_RequestException e
      then
        (case py_print env (py ''Error uploading questions: '' @ exn_str env e) of
           Some pe \<Rightarrow> (h, posts, Inl pe)
         | None \<Rightarrow>
        (case exn_response e of
           None \<Rightarrow> (h, posts, Inr False)
         | Some r \<Rightarrow>
        (case py_print env (py ''Status code: '' @ str_int (int (status_code r))) of
           Some pe \<Rightarrow> (h, posts, Inl pe)
         | None \<Rightarrow>
        (case py_print env (py ''Response: '' @ response_text r) of
           Some pe \<Rightarrow> (h, posts, Inl pe)
         | None \<Rightarrow> (h, posts, Inr False)))))
      else (h, posts, Inl e))"

definition upload_questions :: "env \<Rightarrow> heap \<Rightarrow> pyval \<Rightarrow> heap \<times> pyval list \<times> (exn + bool)" where
  "upload_questions env h questions =
     (case py_bool h questions of
        Inl e \<Rightarrow> (h, [], Inl e)
      | Inr nonempty \<Rightarrow>
          if \<not> nonempty then (h, [], Inr False)
          else
            (case heap_alloc h (OList []) of (h1, fq) \<Rightarrow>
            (case py_iter h1 questions of
               Inl e \<Rightarrow> (h1, [], Inl e)
             | Inr items \<Rightarrow>
            (case reshape h1 fq items of
               (h2, Some e) \<Rightarrow> (h2, [], Inl e)
             | (h2, None) \<Rightarrow>
            (case heap_alloc h2 (ODict [(py ''questions'', PRef fq)]) of (h3, p) \<Rightarrow>
            (case json_dumps env h3 (PRef p) of
               Some e \<Rightarrow> upload_handler env h3 [] e
             | None \<Rightarrow>
            (case post env h3 (PRef p) of
               Inl e \<Rightarrow> upload_handler env h3 [PRef p] e
             | Inr response \<Rightarrow>
            (case raise_for_status response of
               Some e \<Rightarrow> upload_handler env h3 [PRef p] e
             | None \<Rightarrow> (h3, [PRef p], Inr True)))))))))"

section \<open>The driver\<close>

definition CATEGORIES :: "pystr list" where
  "CATEGORIES = [py ''Science'', py ''History'', py ''Geography'', py ''Sports'',
                 py ''Entertainment'']"

definition QUESTIONS_PER_CATEGORY :: int where
  "QUESTIONS_PER_CATEGORY = 5"

text \<open>
  The loop of \<open>main\<close> over the categories: the store at the end, the categories whose
  processing began, in order, and the exception that ended the run, if one did. The loop
  has no handler, so an exception that leaves \<open>generate_questions\<close> or \<open>upload_questions\<close>
  leaves \<open>main\<close>.
\<close>

fun main_loop :: "env \<Rightarrow> heap \<Rightarrow> pystr list \<Rightarrow> heap \<times> pystr list \<times> exn option" where
  "main_loop env h [] = (h, [], None)"
| "main_loop env h (category # rest) =
     (case generate_questions env h category QUESTIONS_PER_CATEGORY 3 of
        (h1, prompts, Inl e) \<Rightarrow> (h1, [category], Some e)
      | (h1, prompts, Inr questions) \<Rightarrow>
     (case py_bool h1 questions of
        Inl e \<Rightarrow> (h1, [category], Some e)
      | Inr nonempty \<Rightarrow>
          if \<not> nonempty
          then (case main_loop env h1 rest of (h', done, r) \<Rightarrow> (h', category # done, r))
          else
            (case upload_questions env h1 questions of
               (h2, posts, Inl e) \<Rightarrow> (h2, [category], Some e)
             | (h2, posts, Inr ok) \<Rightarrow>
                 (case main_loop env h2 rest of (h', done, r) \<Rightarrow> (h', category # done, r)))))"

definition main :: "env \<Rightarrow> heap \<Rightarrow> heap \<times> pystr list \<times> exn option" where
  "main env h = main_loop env h CATEGORIES"

section \<open>Inputs of the stated properties\<close>

text \<open>
  The insignificant whitespace of JSON (RFC 8259): space, tab, line feed, carriage
  return. \<^verbatim>\<open>json.loads\<close> skips it before and after the value.
\<close>

definition json_ws :: "nat \<Rightarrow> bool" where
  "json_ws c \<longleftrightarrow> c = 32 \<or> c = 9 \<or> c = 10 \<or> c = 13"

text \<open>A text wrapped in a Markdown JSON fence.\<close>

definition fenced :: "pystr \<Rightarrow> pystr" where
  "fenced t = py ''```json\<newline>'' @ t @ py ''\<newline>```''"

text \<open>
  The outer shape of every JSON array text: between JSON whitespace, a text of at least
  two characters that opens with a left bracket and closes with a right bracket.
\<close>

definition json_array_shaped :: "pystr \<Rightarrow> bool" where
  "json_array_shaped t =
     (case strip_where json_ws t of
        [] \<Rightarrow> False
      | c # cs \<Rightarrow> c = 91 \<and> cs \<noteq> [] \<and> last cs = 93)"

text \<open>
  A stand-in for \<^verbatim>\<open>json.loads\<close> in concrete runs, which knows one JSON text: it returns
  \<open>parsed\<close> on \<open>text\<close>, with any JSON whitespace around it, and raises on every other
  text. It is used with pairs on which \<^verbatim>\<open>json.loads\<close> gives this result.
\<close>

definition one_text_loads :: "pystr \<Rightarrow> json \<Rightarrow> pystr \<Rightarrow> exn + json" where
  "one_text_loads text parsed s =
     (if strip_where json_ws s = text then Inr parsed else Inl JSONDecodeError)"

text \<open>
  A concrete environment: the completion capability answers every prompt with one choice
  of content \<open>content\<close>, the \<^verbatim>\<open>json.dumps\<close> of the log line never raises, the endpoint
  answers every request with the status \<open>status\<close> and the text \<open>error\<close>, every exception
  has the message \<open>error\<close>, and the standard output is UTF-8, which encodes every code
  point but the surrogates.
\<close>

definition sample_env :: "pystr \<Rightarrow> pystr \<Rightarrow> json \<Rightarrow> nat \<Rightarrow> env" where
  "sample_env content text parsed status =
     \<lparr>create = (\<lambda>prompt. Inr [Some content]),
      json_loads = one_text_loads text parsed,
      json_dumps = (\<lambda>h p. None),
      post = (\<lambda>h p. Inr (Response status (py ''error''))),
      exn_str = (\<lambda>e. py ''error''),
      stdout_encodes = (\<lambda>c. c < 55296 \<or> 57343 < c)\<rparr>"

text \<open>
  The same environment with a standard output in Latin-1, as a process has whose output
  is not a UTF-8 terminal: it encodes the code points below 256.
\<close>

definition latin1_stdout :: "env \<Rightarrow> env" where
  "latin1_stdout env = env\<lparr>stdout_encodes := (\<lambda>c. c < 256)\<rparr>"

text \<open>
  A concrete environment in which the completion capability and the endpoint raise \<open>e\<close>
  on every call.
\<close>

definition raising_env :: "exn \<Rightarrow> env" where
  "raising_env e =
     \<lparr>create = (\<lambda>prompt. Inl e),
      json_loads = (\<lambda>s. Inl JSONDecodeError),
      json_dumps = (\<lambda>h p. None),
      post = (\<lambda>h p. Inl e),
      exn_str = (\<lambda>e. py ''error''),
      stdout_encodes = (\<lambda>c. c < 55296 \<or> 57343 < c)\<rparr>"

text \<open>
  The log lines that the handler of \<open>upload_questions\<close> prints for an exception \<open>e\<close> can
  all be written to the standard output.
\<close>

definition handler_lines_encodable :: "env \<Rightarrow> exn \<Rightarrow> bool" where
  "handler_lines_encodable env e \<longleftrightarrow>
     encodable env (py ''Error uploading questions: '' @ exn_str env e) \<and>
     (case exn_response e of
        None \<Rightarrow> True
      | Some r \<Rightarrow> encodable env (py ''Response: '' @ response_text r))"

text \<open>
  The records of the publisher's input. \<open>record_of\<close> reads the dictionary an item refers
  to. \<open>four_keys\<close> is the reshaped record that the payload is to hold: the values of the
  four required keys, in this order, and nothing else; it is undefined where a key is
  missing. A record is well formed when it is a dictionary with the four keys.
\<close>

definition required_keys :: "pystr list" where
  "required_keys = [py ''text'', py ''answer'', py ''category'', py ''filler_answers'']"

definition record_of :: "heap \<Rightarrow> pyval \<Rightarrow> (pystr \<times> pyval) list option" where
  "record_of h q =
     (case q of
        PRef a \<Rightarrow> (case heap_get h a of Some (ODict kvs) \<Rightarrow> Some kvs | _ \<Rightarrow> None)
      | _ \<Rightarrow> None)"

definition four_keys :: "(pystr \<times> pyval) list \<Rightarrow> (pystr \<times> pyval) list option" where
  "four_keys kvs =
     (case dict_get kvs (py ''text'') of None \<Rightarrow> None | Some text \<Rightarrow>
     (case dict_get kvs (py ''answer'') of None \<Rightarrow> None | Some answer \<Rightarrow>
     (case dict_get kvs (py ''category'') of None \<Rightarrow> None | Some category \<Rightarrow>
     (case dict_get kvs (py ''filler_answers'') of None \<Rightarrow> None | Some filler_answers \<Rightarrow>
        Some [(py ''text'', text), (py ''answer'', answer), (py ''category'', category),
              (py ''filler_answers'', filler_answers)]))))"

definition reshaped :: "heap \<Rightarrow> pyval \<Rightarrow> (pystr \<times> pyval) list option" where
  "reshaped h q = (case record_of h q of None \<Rightarrow> None | Some kvs \<Rightarrow> four_keys kvs)"

definition well_formed :: "heap \<Rightarrow> pyval \<Rightarrow> bool" where
  "well_formed h q \<longleftrightarrow> reshaped h q \<noteq> None"

text \<open>
  A store that holds one question with an extra key, the list of its filler answers,
  and at address 2 the list of questions.
\<close>

definition sample_store :: heap where
  "sample_store =
     [ODict [(py ''text'', PStr (py ''Q'')), (py ''answer'', PStr (py ''A'')),
             (py ''difficulty'', PInt 2), (py ''category'', PStr (py ''C'')),
             (py ''filler_answers'', PRef 1)],
      OList [PStr (py ''B''), PStr (py ''D''), PStr (py ''E'')],
      OList [PRef 0]]"

section \<open>Cleaning the returned text\<close>

lemma strip_where_core:
  assumes "\<forall>x\<in>set l. P x" "\<forall>x\<in>set r. P x" "b \<noteq> []" "\<not> P (hd b)" "\<not> P (last b)"
  shows "strip_where P (l @ b @ r) = b"
proof -
  obtain c cs where b: "b = c # cs" using assms(3) by (cases b) auto
  have lead: "dropWhile P (l @ b @ r) = b @ r"
    using assms(1,4) b by (simp add: dropWhile_append2)
  obtain ds d where b': "b = ds @ [d]" using assms(3) by (metis rev_exhaust)
  have nd: "\<not> P d" using assms(5) b' by simp
  have "rev (b @ r) = rev r @ d # rev ds" using b' by simp
  moreover have "dropWhile P (rev r @ d # rev ds) = d # rev ds"
    using assms(2) nd by (subst dropWhile_append2) auto
  ultimately have trail: "dropWhile P (rev (b @ r)) = d # rev ds" by simp
  show ?thesis unfolding strip_where_def lead trail using b' by simp
qed

lemma strip_where_id:
  assumes "b \<noteq> []" "\<not> P (hd b)" "\<not> P (last b)"
  shows "strip_where P b = b"
  using strip_where_core [of "[]" P "[]" b] assms by simp

lemma strip_where_decomp:
  assumes "strip_where P t \<noteq> []"
  shows "\<exists>l r. t = l @ strip_where P t @ r \<and> (\<forall>x\<in>set l. P x) \<and> (\<forall>x\<in>set r. P x) \<and>
     \<not> P (hd (strip_where P t)) \<and> \<not> P (last (strip_where P t))"
proof -
  let ?m = "dropWhile P t"
  let ?b = "strip_where P t"
  have m: "?m \<noteq> []" using assms unfolding strip_where_def by (cases "dropWhile P t") auto
  have t: "t = takeWhile P t @ ?m" by simp
  have rm: "rev ?m = takeWhile P (rev ?m) @ dropWhile P (rev ?m)" by simp
  have "?m = rev (dropWhile P (rev ?m)) @ rev (takeWhile P (rev ?m))"
    by (metis rev_append rev_rev_ident rm)
  then have m2: "?m = ?b @ rev (takeWhile P (rev ?m))" by (simp add: strip_where_def)
  have hdm: "\<not> P (hd ?m)" using m by (simp add: hd_dropWhile)
  have "hd ?b = hd ?m" using m2 assms by (metis hd_append2)
  then have h: "\<not> P (hd ?b)" using hdm by simp
  have drn: "dropWhile P (rev ?m) \<noteq> []" using assms by (simp add: strip_where_def)
  have "last ?b = hd (dropWhile P (rev ?m))"
    using drn by (simp add: strip_where_def last_rev)
  then have l: "\<not> P (last ?b)" using drn by (simp add: hd_dropWhile)
  have "t = takeWhile P t @ ?b @ rev (takeWhile P (rev ?m))" using t m2 by metis
  moreover have "\<forall>x\<in>set (takeWhile P t). P x" by (auto dest: set_takeWhileD)
  moreover have "\<forall>x\<in>set (rev (takeWhile P (rev ?m))). P x" by (auto dest: set_takeWhileD)
  ultimately show ?thesis using h l by blast
qed

lemma strip_where_idem: "strip_where P (strip_where P s) = strip_where P s"
proof (cases "strip_where P s = []")
  case True
  have "strip_where P [] = []" by (simp add: strip_where_def)
  with True show ?thesis by metis
next
  case False
  from strip_where_decomp [OF False] show ?thesis
    using False by (auto intro: strip_where_id)
qed

lemma json_ws_isspace: "json_ws c \<Longrightarrow> py_isspace c"
  by (auto simp: json_ws_def py_isspace_def)

text \<open>
  On a fenced array text the four strips remove the fence and the whitespace and nothing
  else; on the array text itself they remove the whitespace only.
\<close>

lemma clean_fenced:
  assumes "json_array_shaped t"
  shows "clean (fenced t) = strip_where json_ws t" and "clean t = strip_where json_ws t"
proof -
  let ?b = "strip_where json_ws t"
  from assms obtain cs where b: "?b = 91 # cs" "cs \<noteq> []" "last cs = 93"
    by (auto simp: json_array_shaped_def split: list.splits)
  have bne: "?b \<noteq> []" and hd: "hd ?b = 91" and last: "last ?b = 93" using b by auto
  from strip_where_decomp [of json_ws t] bne obtain l r where
    t: "t = l @ ?b @ r" and l: "\<forall>x\<in>set l. json_ws x" and r: "\<forall>x\<in>set r. json_ws x"
    by blast
  have l': "\<forall>x\<in>set l. py_isspace x" and r': "\<forall>x\<in>set r. py_isspace x"
    using l r json_ws_isspace by auto
  have nsp: "\<not> py_isspace 91" "\<not> py_isspace 93" "\<not> py_isspace 96" "py_isspace 10"
    by (simp_all add: py_isspace_def)
  let ?inner = "10 # l @ ?b @ r @ [10]"
  have fenced: "fenced t = [96, 96, 96, 106, 115, 111, 110] @ ?inner @ [96, 96, 96]"
    by (subst t) (simp add: fenced_def py_def)
  have s1: "py_strip (fenced t) = fenced t"
    unfolding py_strip_def using nsp by (intro strip_where_id) (simp_all add: fenced_def py_def)
  have s2: "py_strip_chars (py ''```json'') (fenced t) = ?inner"
    unfolding py_strip_chars_def fenced
    by (rule strip_where_core) (simp_all add: py_def)
  have s3: "py_strip_chars (py ''```'') ?inner = ?inner"
    unfolding py_strip_chars_def by (rule strip_where_id) (simp_all add: py_def)
  have "?inner = (10 # l) @ ?b @ (r @ [10])" by simp
  moreover have "strip_where py_isspace ((10 # l) @ ?b @ (r @ [10])) = ?b"
    using l' r' nsp bne hd last by (intro strip_where_core) auto
  ultimately have s4: "py_strip ?inner = ?b" by (simp add: py_strip_def)
  show "clean (fenced t) = ?b" by (simp only: clean_def s1 s2 s3 s4)
  have "strip_where py_isspace (l @ ?b @ r) = ?b"
    using l' r' nsp bne hd last by (intro strip_where_core) auto
  then have u1: "py_strip t = ?b" using t by (simp add: py_strip_def)
  have u2: "py_strip_chars (py ''```json'') ?b = ?b"
    unfolding py_strip_chars_def using bne hd last by (intro strip_where_id) (simp_all add: py_def)
  have u3: "py_strip_chars (py ''```'') ?b = ?b"
    unfolding py_strip_chars_def using bne hd last by (intro strip_where_id) (simp_all add: py_def)
  have u4: "py_strip ?b = ?b"
    unfolding py_strip_def using bne hd last nsp by (intro strip_where_id) simp_all
  show "clean t = ?b" by (simp only: clean_def u1 u2 u3 u4)
qed

text \<open>
  Claim C2. For every JSON array text \<open>t\<close>, cleaning the fenced form of \<open>t\<close> and parsing
  gives what parsing \<open>t\<close> gives. The cleaned fenced text is the text the generator parses
  when the model returns \<open>t\<close> without a fence, so the two parses are the same call; and
  for a parser that skips the JSON whitespace around a text, as \<^verbatim>\<open>json.loads\<close> does, it is
  the parse of \<open>t\<close> itself.
\<close>

theorem fence_stripping_roundtrip:
  assumes "json_array_shaped t"
  shows "clean (fenced t) = clean t \<and>
         json_loads env (clean (fenced t)) = json_loads env (clean t) \<and>
         ((\<forall>s. json_loads env (strip_where json_ws s) = json_loads env s) \<longrightarrow>
            json_loads env (clean (fenced t)) = json_loads env t)"
  using clean_fenced [OF assms] by metis

theorem fence_stripping_roundtrip_witness:
  "json_array_shaped (py '' [1]\<newline>'') \<and>
   (\<forall>s. json_loads (sample_env (py ''x'') (py ''[1]'') (JArr [JInt 1]) 200) (strip_where json_ws s)
       = json_loads (sample_env (py ''x'') (py ''[1]'') (JArr [JInt 1]) 200) s) \<and>
   json_loads (sample_env (py ''x'') (py ''[1]'') (JArr [JInt 1]) 200) (clean (fenced (py '' [1]\<newline>'')))
     = Inr (JArr [JInt 1]) \<and>
   json_loads (sample_env (py ''x'') (py ''[1]'') (JArr [JInt 1]) 200) (py '' [1]\<newline>'')
     = Inr (JArr [JInt 1])"
proof -
  have sh: "json_array_shaped (py '' [1]\<newline>'')"
    by (simp add: json_array_shaped_def strip_where_def json_ws_def py_def)
  have ws: "\<forall>s. json_loads (sample_env (py ''x'') (py ''[1]'') (JArr [JInt 1]) 200) (strip_where json_ws s)
       = json_loads (sample_env (py ''x'') (py ''[1]'') (JArr [JInt 1]) 200) s"
    by (simp add: sample_env_def one_text_loads_def strip_where_idem)
  have un: "json_loads (sample_env (py ''x'') (py ''[1]'') (JArr [JInt 1]) 200) (py '' [1]\<newline>'')
     = Inr (JArr [JInt 1])"
    by (simp add: sample_env_def one_text_loads_def strip_where_def json_ws_def py_def)
  have "json_loads (sample_env (py ''x'') (py ''[1]'') (JArr [JInt 1]) 200) (clean (fenced (py '' [1]\<newline>'')))
     = json_loads (sample_env (py ''x'') (py ''[1]'') (JArr [JInt 1]) 200) (py '' [1]\<newline>'')"
    using fence_stripping_roundtrip [OF sh, of "sample_env (py ''x'') (py ''[1]'') (JArr [JInt 1]) 200"] ws
    by blast
  with sh ws un show ?thesis by metis
qed

section \<open>Reading and writing the store\<close>

lemma dict_get_set_same: "dict_get (dict_set kvs k v) k = Some v"
  by (induction kvs) auto

lemma heap_get_update:
  "heap_get (h[a := ob]) b = (if b = a \<and> a < length h then Some ob else heap_get h b)"
  by (auto simp: heap_get_def)

lemma py_setitem_InrD:
  assumes "py_setitem h q k v = Inr h'"
  shows "\<exists>a kvs. q = PRef a \<and> heap_get h a = Some (ODict kvs) \<and>
           h' = h[a := ODict (dict_set kvs k v)]"
  using assms by (cases q) (auto split: option.splits pyobj.splits)

lemma heap_get_append:
  "heap_get h a = Some ob \<Longrightarrow> heap_get (h @ ext) a = Some ob"
  by (auto simp: heap_get_def nth_append split: if_splits)

lemma heap_get_length: "heap_get (h @ ob # ext) (length h) = Some ob"
  by (simp add: heap_get_def)

section \<open>Properties of the generator\<close>

subsection \<open>The prompt\<close>

text \<open>
  The decimal text of an integer consists of digits after an optional sign, and two
  integers with the same text are equal.
\<close>

lemma dec_digits_eq:
  "n < 10 \<Longrightarrow> dec_digits n = [48 + n]"
  "\<not> n < 10 \<Longrightarrow> dec_digits n = dec_digits (n div 10) @ [48 + n mod 10]"
  by (subst dec_digits.simps, simp)+

lemma dec_digits_range: "d \<in> set (dec_digits n) \<Longrightarrow> 48 \<le> d \<and> d \<le> 57"
proof (induction n rule: dec_digits.induct)
  case (1 n)
  show ?case
  proof (cases "n < 10")
    case True
    then show ?thesis using "1.prems" by (simp add: dec_digits_eq(1))
  next
    case False
    have "n mod 10 < 10" by simp
    then show ?thesis
      using "1.prems" "1.IH" [OF False] False by (auto simp: dec_digits_eq(2))
  qed
qed

lemma dec_digits_nonempty: "dec_digits n \<noteq> []"
  by (cases "n < 10") (simp_all add: dec_digits_eq)

lemma dec_digits_inj: "dec_digits a = dec_digits b \<Longrightarrow> a = b"
proof (induction a arbitrary: b rule: dec_digits.induct)
  case (1 a)
  show ?case
  proof (cases "a < 10")
    case a: True
    show ?thesis
    proof (cases "b < 10")
      case True
      then show ?thesis using a "1.prems" by (simp add: dec_digits_eq(1))
    next
      case False
      then show ?thesis
        using a "1.prems" dec_digits_nonempty [of "b div 10"] by (simp add: dec_digits_eq)
    qed
  next
    case a: False
    show ?thesis
    proof (cases "b < 10")
      case True
      then show ?thesis
        using a "1.prems" dec_digits_nonempty [of "a div 10"] by (simp add: dec_digits_eq)
    next
      case False
      from "1.prems" a False have
        "dec_digits (a div 10) = dec_digits (b div 10)" and m: "a mod 10 = b mod 10"
        by (simp_all add: dec_digits_eq(2))
      then have "a div 10 = b div 10" using "1.IH" [OF a] by blast
      then show ?thesis using m by (metis div_mult_mod_eq)
    qed
  qed
qed

lemma str_int_range: "d \<in> set (str_int i) \<Longrightarrow> d = 45 \<or> (48 \<le> d \<and> d \<le> 57)"
  by (auto simp: str_int_def dest: dec_digits_range split: if_splits)

lemma str_int_inj: "str_int a = str_int b \<Longrightarrow> a = b"
proof -
  assume eq: "str_int a = str_int b"
  have no_sign: "45 # xs \<noteq> dec_digits n" for xs n
  proof
    assume "45 # xs = dec_digits n"
    then have "45 \<in> set (dec_digits n)" by (metis list.set_intros(1))
    then show False using dec_digits_range by fastforce
  qed
  show "a = b"
  proof (cases "a < 0")
    case a: True
    show ?thesis
    proof (cases "b < 0")
      case True
      then have "nat (- a) = nat (- b)" using eq a by (auto simp: str_int_def dest: dec_digits_inj)
      then show ?thesis using a True by simp
    next
      case False
      then show ?thesis using eq a no_sign by (simp add: str_int_def)
    qed
  next
    case a: False
    show ?thesis
    proof (cases "b < 0")
      case True
      then show ?thesis using eq a no_sign [of _ "nat a"] by (simp add: str_int_def) metis
    next
      case False
      then have "nat a = nat b" using eq a by (auto simp: str_int_def dest: dec_digits_inj)
      then show ?thesis using a False by simp
    qed
  qed
qed

text \<open>Two texts without a space that are followed by a space end at the same place.\<close>

lemma split_at_space:
  assumes "(32::nat) \<notin> set xs" "32 \<notin> set ys" "xs @ 32 # r = ys @ 32 # r'"
  shows "xs = ys \<and> r = r'"
  using assms
proof (induction xs arbitrary: ys)
  case Nil
  then show ?case by (cases ys) auto
next
  case (Cons x xs)
  then show ?case by (cases ys) auto
qed

text \<open>
  The prompt names both counts, each followed by a space, so a prompt is the prompt of
  one pair of counts only.
\<close>

lemma build_prompt_shape:
  "\<exists>mid tail. \<forall>category a b.
     build_prompt category a b =
       py ''Generate '' @ str_int a @ 32 # py ''questions about '' @ category @ mid @
       str_int b @ 32 # tail"
  unfolding build_prompt_def
  by (intro exI [of _ "py ''.\<newline>For each question, provide:\<newline>'' @
        py ''1. A clear, concise question text\<newline>'' @
        py ''2. A single correct answer (factually accurate)\<newline>'' @ py ''3. ''"]
      exI [of _ "py ''incorrect but plausible filler answers\<newline>'' @
        py ''\<newline>Important guidelines:\<newline>'' @
        py ''- Questions should be factually accurate and verifiable\<newline>'' @
        py ''- Avoid opinion-based questions\<newline>'' @
        py ''- Ensure answers are not too similar to each other\<newline>'' @
        py ''- Keep questions and answers concise\<newline>'' @
        py ''- Format filler_answers as a JSON array of strings\<newline>'' @
        py ''\<newline>Format the response as a JSON array of objects with this exact structure:\<newline>'' @
        py ''[\<newline>  {\<newline>'' @
        py ''    \"text\": \"What is the capital of France?\",\<newline>'' @
        py ''    \"answer\": \"Paris\",\<newline>'' @
        py ''    \"filler_answers\": [\"London\", \"Berlin\", \"Madrid\"]\<newline>'' @
        py ''  }\<newline>]\<newline>'' @
        py ''\<newline>ONLY return the JSON array, no other text or markdown formatting.''"])
    (simp add: py_def)

lemma build_prompt_inj:
  assumes "build_prompt category a b = build_prompt category a' b'"
  shows "a = a' \<and> b = b'"
proof -
  from build_prompt_shape obtain mid tail where
    shape: "\<And>c x y. build_prompt c x y =
       py ''Generate '' @ str_int x @ 32 # py ''questions about '' @ c @ mid @
       str_int y @ 32 # tail" by blast
  have sp: "32 \<notin> set (str_int i)" for i using str_int_range [of 32 i] by auto
  from assms have
    "str_int a @ 32 # (py ''questions about '' @ category @ mid @ str_int b @ 32 # tail) =
     str_int a' @ 32 # (py ''questions about '' @ category @ mid @ str_int b' @ 32 # tail)"
    unfolding shape by simp
  from split_at_space [OF sp sp this] have
    a: "str_int a = str_int a'" and "str_int b @ 32 # tail = str_int b' @ 32 # tail"
    by simp_all
  from split_at_space [OF sp sp this(2)] have "str_int b = str_int b'" by simp
  with a show ?thesis by (simp add: str_int_inj)
qed

text \<open>
  Claim C1. For all integers \<open>n\<close> and \<open>m\<close>, \<open>generate_questions\<close> with counts \<open>n\<close> and \<open>m\<close>
  does what it does with \<open>max 1 (min 10 n)\<close> and \<open>max 3 (min 5 m)\<close>: the same store, the
  same prompt and the same outcome, for every environment, so a count out of range is
  the cause of no failure. The function makes one call of the completion capability,
  and the prompt of this call is the prompt that names the clamped counts, which is the
  prompt of no other pair of counts.
\<close>

theorem clamping:
  "generate_questions env h category n m =
     generate_questions env h category (max 1 (min 10 n)) (max 3 (min 5 m)) \<and>
   fst (snd (generate_questions env h category n m)) =
     [build_prompt category (max 1 (min 10 n)) (max 3 (min 5 m))] \<and>
   (fst (snd (generate_questions env h category n m)) = [build_prompt category n' m']
      \<longrightarrow> n' = max 1 (min 10 n) \<and> m' = max 3 (min 5 m))"
proof -
  have same: "generate_questions env h category n m =
     generate_questions env h category (max 1 (min 10 n)) (max 3 (min 5 m))"
    by (simp add: generate_questions_def)
  have sent: "fst (snd (generate_questions env h category n m)) =
     [build_prompt category (max 1 (min 10 n)) (max 3 (min 5 m))]"
    by (simp add: generate_questions_def Let_def split: prod.splits sum.splits)
  have "n' = max 1 (min 10 n) \<and> m' = max 3 (min 5 m)"
    if "fst (snd (generate_questions env h category n m)) = [build_prompt category n' m']"
    using that
      build_prompt_inj [of category "max 1 (min 10 n)" "max 3 (min 5 m)" n' m']
    unfolding sent by auto
  with same sent show ?thesis by blast
qed

subsection \<open>The annotation loop\<close>

text \<open>
  The loop keeps a dictionary that carries the category carrying it, and keeps every
  list as it is.
\<close>

lemma annotate_keeps:
  assumes "annotate h qs c = (h2, r)"
  shows "(heap_get h a = Some (ODict kvs) \<and> dict_get kvs (py ''category'') = Some (PStr c)
            \<longrightarrow> (\<exists>kvs'. heap_get h2 a = Some (ODict kvs') \<and>
                   dict_get kvs' (py ''category'') = Some (PStr c)))
       \<and> (heap_get h a = Some (OList xs) \<longrightarrow> heap_get h2 a = Some (OList xs))"
  using assms
proof (induction qs arbitrary: h kvs)
  case Nil
  then show ?case by simp
next
  case (Cons q qs)
  show ?case
  proof (cases "py_setitem h q (py ''category'') (PStr c)")
    case (Inl e)
    with Cons.prems show ?thesis by simp
  next
    case (Inr h1)
    from py_setitem_InrD [OF Inr] obtain b kvb where
      q: "q = PRef b" and b: "heap_get h b = Some (ODict kvb)"
      and h1: "h1 = h[b := ODict (dict_set kvb (py ''category'') (PStr c))]" by blast
    have rest: "annotate h1 qs c = (h2, r)" using Cons.prems Inr by simp
    have blen: "b < length h" using b by (auto simp: heap_get_def split: if_splits)
    have step1: "heap_get h a = Some (ODict kvs) \<and>
        dict_get kvs (py ''category'') = Some (PStr c)
       \<Longrightarrow> \<exists>kvs1. heap_get h1 a = Some (ODict kvs1) \<and>
             dict_get kvs1 (py ''category'') = Some (PStr c)"
      unfolding h1 heap_get_update using blen by (auto simp: dict_get_set_same)
    have step2: "heap_get h a = Some (OList xs) \<Longrightarrow> heap_get h1 a = Some (OList xs)"
      unfolding h1 heap_get_update using b by auto
    show ?thesis using Cons.IH [OF rest] step1 step2 by blast
  qed
qed

lemma annotate_stamps:
  assumes "annotate h qs c = (h2, None)" "q \<in> set qs"
  shows "\<exists>a kvs. q = PRef a \<and> heap_get h2 a = Some (ODict kvs) \<and>
           dict_get kvs (py ''category'') = Some (PStr c)"
  using assms
proof (induction qs arbitrary: h)
  case Nil
  then show ?case by simp
next
  case (Cons x qs)
  from Cons.prems(1) obtain h1 where
    set: "py_setitem h x (py ''category'') (PStr c) = Inr h1"
    and rest: "annotate h1 qs c = (h2, None)"
    by (auto split: sum.splits)
  show ?case
  proof (cases "q \<in> set qs")
    case True
    then show ?thesis using Cons.IH [OF rest] by blast
  next
    case False
    then have qx: "q = x" using Cons.prems(2) by simp
    from py_setitem_InrD [OF set] obtain b kvb where
      x: "x = PRef b" and b: "heap_get h b = Some (ODict kvb)"
      and h1: "h1 = h[b := ODict (dict_set kvb (py ''category'') (PStr c))]" by blast
    have blen: "b < length h" using b by (auto simp: heap_get_def split: if_splits)
    have "heap_get h1 b = Some (ODict (dict_set kvb (py ''category'') (PStr c)))"
      unfolding h1 heap_get_update using blen by simp
    then show ?thesis using annotate_keeps [OF rest] qx x dict_get_set_same by blast
  qed
qed

text \<open>The loop fails on a string item, so a run over strings that ends well was empty.\<close>

lemma annotate_Nil_items:
  assumes "annotate h (map PStr ss) c = (h2, None)"
  shows "ss = []"
  using assms by (cases ss) auto

lemma py_iter_after_annotate:
  assumes it: "py_iter h v = Inr items" and an: "annotate h items c = (h2, None)"
  shows "py_iter h2 v = Inr items"
proof (cases v)
  case (PStr s)
  then show ?thesis using it by simp
next
  case (PRef a)
  show ?thesis
  proof (cases "heap_get h a")
    case None
    then show ?thesis using it PRef by simp
  next
    case (Some ob)
    show ?thesis
    proof (cases ob)
      case (OList xs)
      then have "heap_get h2 a = Some (OList xs)" using annotate_keeps [OF an] Some by blast
      then show ?thesis using it PRef Some OList by simp
    next
      case (ODict kvs)
      then have items: "items = map PStr (map fst kvs)"
        using it PRef Some by (simp add: comp_def)
      then have "map fst kvs = []" using an annotate_Nil_items by blast
      then have "items = []" using items by simp
      then have "h2 = h" using an by simp
      then show ?thesis using it by simp
    qed
  qed
qed (use it in auto)

subsection \<open>The handlers\<close>

lemma generate_handler_cases:
  "generate_handler env h content e = (h, Inl UnicodeEncodeError) \<or>
   generate_handler env h content e = (h @ [OList []], Inr (PRef (length h)))"
  by (auto simp: generate_handler_def return_empty_def heap_alloc_def py_print_def
      split: option.splits)

text \<open>
  When the lines that a handler prints can be written, the handler returns a new empty
  list.
\<close>

lemma generate_handler_logged:
  assumes "encodable env (py ''Error parsing JSON response: '' @ exn_str env e)"
    and "encodable env (py ''Raw response: '' @
           (case content of Some c \<Rightarrow> c | None \<Rightarrow> py ''No content''))"
    and "encodable env (py ''Error generating questions: '' @ exn_str env e)"
  shows "generate_handler env h content e = (h @ [OList []], Inr (PRef (length h)))"
  using assms
  by (auto simp: generate_handler_def return_empty_def heap_alloc_def py_print_def)

text \<open>
  The items of the value that \<open>generate_questions\<close> returns carry the category.
\<close>

lemma generated_items:
  assumes "generate_questions env h category n m = (h', ps, Inr r)"
    and "py_iter h' r = Inr items"
    and "q \<in> set items"
  shows "\<exists>a kvs. q = PRef a \<and> heap_get h' a = Some (ODict kvs) \<and>
           dict_get kvs (py ''category'') = Some (PStr category)"
proof -
  let ?P = "build_prompt category (max 1 (min 10 n)) (max 3 (min 5 m))"
  obtain ht content res where t: "generate_try env h ?P category = (ht, content, res)"
    by (cases "generate_try env h ?P category")
  show ?thesis
  proof (cases res)
    case (Inl e)
    then have "generate_handler env ht content e = (h', Inr r)"
      using assms(1) t by (auto simp: generate_questions_def split: prod.splits)
    then have "h' = ht @ [OList []]" "r = PRef (length ht)"
      using generate_handler_cases [of env ht content e] by auto
    then have "items = []" using assms(2) by (simp add: heap_get_def)
    then show ?thesis using assms(3) by simp
  next
    case (Inr v)
    then have eq: "h' = ht" "r = v" using assms(1) t by (auto simp: generate_questions_def)
    from t Inr obtain h1 its where
      it: "py_iter h1 v = Inr its" and an: "annotate h1 its category = (ht, None)"
      by (auto simp: generate_try_def Let_def
          split: sum.splits list.splits option.splits prod.splits)
    have "py_iter ht v = Inr its" by (rule py_iter_after_annotate [OF it an])
    then have "items = its" using assms(2) eq by simp
    then show ?thesis using annotate_stamps [OF an] assms(3) eq by blast
  qed
qed

text \<open>
  Claim C7. Every item of the value that \<open>generate_questions\<close> returns is a dictionary
  whose \<open>category\<close> entry is the category argument, whatever the parsed output held
  under that key.
\<close>

theorem category_stamping:
  assumes "generate_questions env h category n m = (h', ps, Inr r)"
    and "py_iter h' r = Inr items"
    and "q \<in> set items"
  shows "\<exists>a kvs. q = PRef a \<and> heap_get h' a = Some (ODict kvs) \<and>
           dict_get kvs (py ''category'') = Some (PStr category)"
  using assms by (rule generated_items)

lemmas run_defs =
  generate_questions_def generate_try_def generate_handler_def return_empty_def
  py_print_def encodable_def sample_env_def raising_env_def latin1_stdout_def
  one_text_loads_def clean_def py_strip_def py_strip_chars_def strip_where_def
  py_isspace_def json_ws_def py_def heap_get_def heap_alloc_def

theorem category_stamping_witness:
  "generate_questions
     (sample_env (py ''```json\<newline>[{\"category\": \"X\"}]\<newline>```'') (py ''[{\"category\": \"X\"}]'')
        (JArr [JObj [(py ''category'', JStr (py ''X''))]]) 200) [] (py ''Science'') 5 3
     = ([ODict [(py ''category'', PStr (py ''Science''))], OList [PRef 0]],
        [build_prompt (py ''Science'') 5 3], Inr (PRef 1)) \<and>
   py_iter [ODict [(py ''category'', PStr (py ''Science''))], OList [PRef 0]] (PRef 1)
     = Inr [PRef 0] \<and>
   PRef 0 \<in> set [PRef 0] \<and>
   (\<exists>a kvs. PRef 0 = PRef a \<and>
      heap_get [ODict [(py ''category'', PStr (py ''Science''))], OList [PRef 0]] a
        = Some (ODict kvs) \<and>
      dict_get kvs (py ''category'') = Some (PStr (py ''Science'')))"
proof -
  have g: "generate_questions
     (sample_env (py ''```json\<newline>[{\"category\": \"X\"}]\<newline>```'') (py ''[{\"category\": \"X\"}]'')
        (JArr [JObj [(py ''category'', JStr (py ''X''))]]) 200) [] (py ''Science'') 5 3
     = ([ODict [(py ''category'', PStr (py ''Science''))], OList [PRef 0]],
        [build_prompt (py ''Science'') 5 3], Inr (PRef 1))"
    by (simp add: run_defs)
  have i: "py_iter [ODict [(py ''category'', PStr (py ''Science''))], OList [PRef 0]] (PRef 1)
     = Inr [PRef 0]"
    by (simp add: heap_get_def)
  have m: "PRef 0 \<in> set [PRef 0]" by simp
  from category_stamping [OF g i m] g i m show ?thesis by blast
qed

theorem clamping_witness:
  "fst (snd (generate_questions (sample_env (py ''[]'') (py ''[]'') (JArr []) 200) []
      (py ''Science'') 50 0)) = [build_prompt (py ''Science'') 10 3] \<and>
   generate_questions (sample_env (py ''[]'') (py ''[]'') (JArr []) 200) [] (py ''Science'') 50 0
     = generate_questions (sample_env (py ''[]'') (py ''[]'') (JArr []) 200) []
         (py ''Science'') 10 3 \<and>
   (10 :: int) = max 1 (min 10 50) \<and> (3 :: int) = max 3 (min 5 0) \<and>
   take 36 (build_prompt (py ''Science'') 10 3) = py ''Generate 10 questions about Science.''"
proof -
  note c = clamping [of "sample_env (py ''[]'') (py ''[]'') (JArr []) 200" "[]"
      "py ''Science''" 50 0 10 3]
  have p: "fst (snd (generate_questions (sample_env (py ''[]'') (py ''[]'') (JArr []) 200) []
      (py ''Science'') 50 0)) = [build_prompt (py ''Science'') 10 3]"
    using c [THEN conjunct2, THEN conjunct1] by simp
  have s: "generate_questions (sample_env (py ''[]'') (py ''[]'') (JArr []) 200) []
      (py ''Science'') 50 0
     = generate_questions (sample_env (py ''[]'') (py ''[]'') (JArr []) 200) []
         (py ''Science'') 10 3"
    using c [THEN conjunct1] by simp
  have k: "(10 :: int) = max 1 (min 10 50) \<and> (3 :: int) = max 3 (min 5 0)"
    using c [THEN conjunct2, THEN conjunct2] p by blast
  have t: "take 36 (build_prompt (py ''Science'') 10 3) = py ''Generate 10 questions about Science.''"
    by (simp add: build_prompt_def str_int_def dec_digits.simps py_def)
  from p s k t show ?thesis by blast
qed

text \<open>
  When the cleaned text of the completion does not parse, or the completion call
  raises, or the body of the \<^verbatim>\<open>try\<close> raises anything else, and the lines that the handler
  prints can be written, \<open>generate_questions\<close> returns a new empty list.
\<close>

lemma fail_to_empty_logged:
  assumes "snd (snd (generate_try env h
             (build_prompt category (max 1 (min 10 n)) (max 3 (min 5 m))) category)) = Inl e"
    and "\<And>s. encodable env s"
  shows "\<exists>h'. generate_questions env h category n m =
           (h' @ [OList []], [build_prompt category (max 1 (min 10 n)) (max 3 (min 5 m))],
            Inr (PRef (length h')))"
proof -
  obtain ht content res where
    t: "generate_try env h (build_prompt category (max 1 (min 10 n)) (max 3 (min 5 m))) category
          = (ht, content, res)"
    using prod_cases3 by blast
  then have "res = Inl e" using assms(1) by simp
  then show ?thesis
    using t
    by (simp add: generate_questions_def generate_handler_logged [OF assms(2) assms(2) assms(2)])
qed

text \<open>
  Claim C5. The claim fails where a handler cannot write its log line. With a standard
  output in Latin-1 and a completion that is not JSON and holds an emoji, the handler of
  the parse error prints the text of the completion, the \<^verbatim>\<open>print\<close> raises
  \<open>UnicodeEncodeError\<close> inside the handler, and the exception leaves \<open>generate_questions\<close>
  and ends the run of \<open>main\<close> in the first category.
\<close>

theorem unencodable_completion_raises:
  "generate_questions
     (latin1_stdout (sample_env (py ''I can't help '' @ [128512]) (py ''[]'') (JArr []) 200))
     [] (py ''Science'') 5 3
     = ([], [build_prompt (py ''Science'') 5 3], Inl UnicodeEncodeError) \<and>
   main (latin1_stdout (sample_env (py ''I can't help '' @ [128512]) (py ''[]'') (JArr []) 200))
     [] = ([], [py ''Science''], Some UnicodeEncodeError)"
  by (simp add: main_def CATEGORIES_def QUESTIONS_PER_CATEGORY_def run_defs)

text \<open>
  Claim C9. The value that \<open>generate_questions\<close> returns is not a list in every run:
  when the completion is the JSON text of an empty object, the loop has nothing to visit
  and the function returns the empty dictionary that was parsed.
\<close>

theorem generate_returns_dict:
  "generate_questions (sample_env (py ''{}'') (py ''{}'') (JObj []) 200) [] (py ''Science'') 5 3
     = ([ODict []], [build_prompt (py ''Science'') 5 3], Inr (PRef 0))"
  by (simp add: run_defs)

section \<open>Properties of the publisher\<close>

text \<open>
  Claim C6. On an empty list \<open>upload_questions\<close> returns \<open>False\<close>, passes nothing to
  \<^verbatim>\<open>requests.post\<close> and leaves the store as it was.
\<close>

theorem upload_empty:
  assumes "heap_get h a = Some (OList [])"
  shows "upload_questions env h (PRef a) = (h, [], Inr False)"
  using assms by (simp add: upload_questions_def)

theorem upload_empty_witness:
  "heap_get [OList []] 0 = Some (OList []) \<and>
   upload_questions (sample_env (py ''[]'') (py ''[]'') (JArr []) 200) [OList []] (PRef 0)
     = ([OList []], [], Inr False)"
proof -
  have e: "heap_get [OList []] 0 = Some (OList [])" by (simp add: heap_get_def)
  show ?thesis using e upload_empty [OF e] by simp
qed

subsection \<open>The reshaping loop\<close>

text \<open>
  During the loop the store is the store of the call, then the list
  \<^verbatim>\<open>formatted_questions\<close>, then the dictionaries built so far. The lookups read the
  records of the input, which lie in the first part.
\<close>

lemma py_getitem_record:
  assumes "record_of h q = Some kvs"
  shows "py_getitem (h @ ext) q k = (case dict_get kvs k of None \<Rightarrow> Inl (KeyError k) | Some v \<Rightarrow> Inr v)"
proof -
  from assms obtain a where q: "q = PRef a" and a: "heap_get h a = Some (ODict kvs)"
    by (auto simp: record_of_def split: pyval.splits option.splits pyobj.splits)
  show ?thesis using heap_get_append [OF a, of ext] q by simp
qed

lemma reshape_step:
  assumes "reshaped h q = Some d"
  shows "reshape (h @ OList acc # ds) (length h) (q # qs) =
         reshape (h @ OList (acc @ [PRef (Suc (length h + length ds))]) # ds @ [ODict d])
           (length h) qs"
proof -
  from assms obtain kvs where r: "record_of h q = Some kvs" and f: "four_keys kvs = Some d"
    by (auto simp: reshaped_def split: option.splits)
  from f obtain t a c fa where
    g: "dict_get kvs (py ''text'') = Some t" "dict_get kvs (py ''answer'') = Some a"
       "dict_get kvs (py ''category'') = Some c" "dict_get kvs (py ''filler_answers'') = Some fa"
    and d: "d = [(py ''text'', t), (py ''answer'', a), (py ''category'', c), (py ''filler_answers'', fa)]"
    by (auto simp: four_keys_def split: option.splits)
  have la: "list_append (h @ OList acc # ds @ [ODict d]) (length h) (PRef (Suc (length h + length ds)))
      = Inr (h @ OList (acc @ [PRef (Suc (length h + length ds))]) # ds @ [ODict d])"
    by (simp add: list_append_def heap_get_length list_update_append)
  show ?thesis
    by (simp add: py_getitem_record [OF r] g heap_alloc_def la d [symmetric])
qed

text \<open>On well-formed records the loop builds one four-key dictionary for each, in order.\<close>

lemma reshape_well_formed:
  assumes "map (reshaped h) qs = map Some ns"
  shows "reshape (h @ OList acc # ds) (length h) qs =
     (h @ OList (acc @ map PRef [Suc (length h + length ds) ..< Suc (length h + length ds) + length qs])
          # ds @ map ODict ns, None)"
  using assms
proof (induction qs arbitrary: acc ds ns)
  case Nil
  then show ?case by simp
next
  case (Cons q qs)
  from Cons.prems obtain d ns' where ns: "ns = d # ns'" and d: "reshaped h q = Some d"
    and rest: "map (reshaped h) qs = map Some ns'" by (cases ns) auto
  have "[n ..< n + Suc k] = n # [Suc n ..< Suc n + k]" for n k :: nat
    by (subst upt_rec) simp
  note upt_step = this
  have e1: "length (q # qs) = Suc (length qs)" by simp
  have e2: "Suc (length h + length (ds @ [ODict d])) = Suc (Suc (length h + length ds))" by simp
  have "[Suc (length h + length ds) ..< Suc (length h + length ds) + length (q # qs)]
      = Suc (length h + length ds) # [Suc (length h + length (ds @ [ODict d])) ..< Suc (length h + length (ds @ [ODict d])) + length qs]"
    by (simp only: e1 e2 upt_step)
  then show ?case
    unfolding reshape_step [OF d] Cons.IH [OF rest] ns by simp
qed

text \<open>On dictionaries of which one lacks a key the loop ends in a \<open>KeyError\<close>.\<close>

lemma reshape_missing:
  assumes "list_all (\<lambda>q. record_of h q \<noteq> None) qs" "\<not> list_all (well_formed h) qs"
  shows "\<exists>h' k. k \<in> set required_keys \<and>
           reshape (h @ OList acc # ds) (length h) qs = (h', Some (KeyError k))"
  using assms
proof (induction qs arbitrary: acc ds)
  case Nil
  then show ?case by simp
next
  case (Cons q qs)
  show ?case
  proof (cases "reshaped h q")
    case (Some d)
    have "well_formed h q" using Some by (simp add: well_formed_def)
    then have "\<not> list_all (well_formed h) qs" using Cons.prems(2) by simp
    moreover have "list_all (\<lambda>q. record_of h q \<noteq> None) qs" using Cons.prems(1) by simp
    ultimately show ?thesis unfolding reshape_step [OF Some] using Cons.IH by blast
  next
    case None
    from Cons.prems(1) obtain kvs where r: "record_of h q = Some kvs" by auto
    with None have f: "four_keys kvs = None" by (simp add: reshaped_def)
    have "\<exists>k. k \<in> set required_keys \<and>
        reshape (h @ OList acc # ds) (length h) (q # qs) = (h @ OList acc # ds, Some (KeyError k))"
      using f by (auto simp: py_getitem_record [OF r] four_keys_def required_keys_def
          split: option.splits)
    then show ?thesis by blast
  qed
qed

text \<open>The loop writes at the address of its list and above, never below.\<close>

lemma list_append_frame:
  assumes "list_append hx fq v = Inr h2" "n \<le> fq" "n \<le> length hx"
  shows "take n h2 = take n hx \<and> n \<le> length h2"
proof -
  from assms(1) obtain xs where "h2 = hx[fq := OList (xs @ [v])]"
    by (auto simp: list_append_def split: option.splits pyobj.splits)
  then show ?thesis using assms(2,3) by simp
qed

lemma reshape_frame:
  assumes "n \<le> fq" "n \<le> length h1"
  shows "take n (fst (reshape h1 fq qs)) = take n h1 \<and> n \<le> length (fst (reshape h1 fq qs))"
  using assms(2)
proof (induction qs arbitrary: h1)
  case Nil
  then show ?case by simp
next
  case (Cons q qs)
  let ?K = "\<lambda>k. py_getitem h1 q (py k)"
  show ?case
  proof (cases "\<exists>t a c f. ?K ''text'' = Inr t \<and> ?K ''answer'' = Inr a \<and> ?K ''category'' = Inr c
      \<and> ?K ''filler_answers'' = Inr f")
    case False
    then have "fst (reshape h1 fq (q # qs)) = h1"
      by (auto split: sum.splits)
    then show ?thesis using Cons.prems by simp
  next
    case True
    then obtain t a c f where k: "?K ''text'' = Inr t" "?K ''answer'' = Inr a"
      "?K ''category'' = Inr c" "?K ''filler_answers'' = Inr f" by blast
    let ?d = "ODict [(py ''text'', t), (py ''answer'', a), (py ''category'', c),
                     (py ''filler_answers'', f)]"
    let ?h1 = "h1 @ [?d]"
    have base: "take n ?h1 = take n h1" "n \<le> length ?h1" using Cons.prems by simp_all
    show ?thesis
    proof (cases "list_append ?h1 fq (PRef (length h1))")
      case (Inl e)
      then have "fst (reshape h1 fq (q # qs)) = ?h1" using k by (simp add: heap_alloc_def)
      then show ?thesis using base by simp
    next
      case (Inr h2)
      from list_append_frame [OF Inr assms(1) base(2)] have
        h2: "take n h2 = take n ?h1" "n \<le> length h2" by simp_all
      have "reshape h1 fq (q # qs) = reshape h2 fq qs" using k Inr by (simp add: heap_alloc_def)
      then show ?thesis using Cons.IH [OF h2(2)] h2(1) base(1) by simp
    qed
  qed
qed

subsection \<open>The handler\<close>

text \<open>
  The handler keeps the store and the requests made, and it never returns \<open>True\<close>. When
  its log lines can be written, it returns \<open>False\<close> on an exception of the requests
  library; the line of the status code is ASCII and can always be written.
\<close>

lemma upload_handler_store:
  "fst (upload_handler env h ps e) = h" "fst (snd (upload_handler env h ps e)) = ps"
  by (simp_all add: upload_handler_def split: option.splits)

lemma upload_handler_not_True: "snd (snd (upload_handler env h ps e)) \<noteq> Inr True"
  by (simp add: upload_handler_def split: option.splits)

lemma encodable_append: "encodable env (s @ t) \<longleftrightarrow> encodable env s \<and> encodable env t"
  by (simp add: encodable_def)

lemma encodable_str_int: "encodable env (str_int i)"
  unfolding encodable_def list_all_iff using str_int_range [of _ i] by fastforce

lemma encodable_status_line: "encodable env (py ''Status code: '' @ str_int i)"
  unfolding encodable_append using encodable_str_int by (simp add: encodable_def py_def)

lemma upload_handler_logged:
  assumes "is_RequestException e" "handler_lines_encodable env e"
  shows "upload_handler env h ps e = (h, ps, Inr False)"
  using assms
  by (auto simp: upload_handler_def handler_lines_encodable_def py_print_def
      encodable_status_line split: option.splits)

subsection \<open>The whole call\<close>

lemma well_formed_reshaped:
  "list_all (well_formed h) qs \<Longrightarrow> \<exists>ns. map (reshaped h) qs = map Some ns"
proof (induction qs)
  case Nil
  then show ?case by simp
next
  case (Cons q qs)
  then obtain ns d where "map (reshaped h) qs = map Some ns" "reshaped h q = Some d"
    by (auto simp: well_formed_def)
  then have "map (reshaped h) (q # qs) = map Some (d # ns)" by simp
  then show ?case by blast
qed

lemma upload_well_formed:
  assumes list: "heap_get h a = Some (OList qs)" and ne: "qs \<noteq> []"
    and ns: "map (reshaped h) qs = map Some ns"
    and H: "H = h @ OList (map PRef [Suc (length h) ..< Suc (length h) + length qs]) #
                 map ODict ns @ [ODict [(py ''questions'', PRef (length h))]]"
    and p: "p = PRef (Suc (length h + length qs))"
  shows "upload_questions env h (PRef a) =
    (case json_dumps env H p of
       Some e \<Rightarrow> upload_handler env H [] e
     | None \<Rightarrow>
        (case post env H p of
           Inl e \<Rightarrow> upload_handler env H [p] e
         | Inr response \<Rightarrow>
            (case raise_for_status response of
               Some e \<Rightarrow> upload_handler env H [p] e
             | None \<Rightarrow> (H, [p], Inr True))))"
proof -
  define L where "L = map PRef [Suc (length h) ..< Suc (length h) + length qs]"
  have len: "length ns = length qs" using ns by (metis length_map)
  have b: "py_bool h (PRef a) = Inr True" using list ne by simp
  have alloc1: "heap_alloc h (OList []) = (h @ [OList []], length h)"
    by (simp add: heap_alloc_def)
  have it: "py_iter (h @ [OList []]) (PRef a) = Inr qs"
    using heap_get_append [OF list, of "[OList []]"] by simp
  have rs: "reshape (h @ [OList []]) (length h) qs = (h @ OList L # map ODict ns, None)"
    using reshape_well_formed [OF ns, of "[]" "[]"] unfolding L_def by simp
  have H': "H = h @ OList L # map ODict ns @ [ODict [(py ''questions'', PRef (length h))]]"
    unfolding H L_def by simp
  have alloc2: "heap_alloc (h @ OList L # map ODict ns)
      (ODict [(py ''questions'', PRef (length h))]) = (H, Suc (length h + length qs))"
    unfolding H' by (simp add: heap_alloc_def len)
  show ?thesis
    unfolding upload_questions_def
    by (simp only: b alloc1 it rs alloc2 p sum.case prod.case option.case simp_thms if_False)
qed

lemmas upload_defs =
  upload_questions_def upload_handler_def raise_for_status_def list_append_def
  sample_store_def

text \<open>
  Claim C10. Whatever the environment, the argument and the outcome, the store after
  \<open>upload_questions\<close> begins with the store before it: every object that existed at the
  call, the input list and its records among them, is unchanged, and what the call
  builds lies at new addresses.
\<close>

theorem upload_frame:
  "take (length h) (fst (upload_questions env h questions)) = h"
proof -
  have r: "take (length h) (fst (reshape (h @ [OList []]) (length h) items)) = h \<and>
      length h \<le> length (fst (reshape (h @ [OList []]) (length h) items))" for items
    using reshape_frame [of "length h" "length h" "h @ [OList []]" items] by simp
  have r2: "reshape (h @ [OList []]) (length h) items = (h2, x) \<Longrightarrow>
      take (length h) h2 = h \<and> length h \<le> length h2" for items h2 x
    using r [of items] by simp
  show ?thesis
    unfolding upload_questions_def
    by (auto simp: heap_alloc_def upload_handler_store
        split: sum.splits option.splits prod.splits dest!: r2)
qed

text \<open>
  Claim C8. For a non-empty list of well-formed records, and a log line that does not
  raise, \<open>upload_questions\<close> makes one request. Its payload is a new dictionary with the
  single key \<open>questions\<close>, whose value is a new list of new dictionaries, one for each
  input record and in the order of the input, each holding the four keys with the
  values of the input record and no other key.
\<close>

theorem payload_shape:
  assumes "heap_get h a = Some (OList qs)" and "qs \<noteq> []" and "list_all (well_formed h) qs"
    and "\<forall>h' p. json_dumps env h' p = None"
  shows "\<exists>ns. map (reshaped h) qs = map Some ns \<and>
      fst (upload_questions env h (PRef a)) =
        h @ OList (map PRef [Suc (length h) ..< Suc (length h) + length qs]) #
            map ODict ns @ [ODict [(py ''questions'', PRef (length h))]] \<and>
      fst (snd (upload_questions env h (PRef a))) = [PRef (Suc (length h + length qs))]"
proof -
  from well_formed_reshaped [OF assms(3)] obtain ns where ns: "map (reshaped h) qs = map Some ns"
    by blast
  show ?thesis
    using ns assms(4)
    by (auto simp: upload_well_formed [OF assms(1,2) ns refl refl] upload_handler_store
        intro!: exI [of _ ns] split: sum.splits option.splits)
qed

theorem payload_shape_witness:
  "heap_get sample_store 2 = Some (OList [PRef 0]) \<and>
   list_all (well_formed sample_store) [PRef 0] \<and>
   (\<forall>h' p. json_dumps (sample_env (py ''[]'') (py ''[]'') (JArr []) 201) h' p = None) \<and>
   fst (upload_questions (sample_env (py ''[]'') (py ''[]'') (JArr []) 201) sample_store (PRef 2))
     = sample_store @
       [OList [PRef 4],
        ODict [(py ''text'', PStr (py ''Q'')), (py ''answer'', PStr (py ''A'')),
               (py ''category'', PStr (py ''C'')), (py ''filler_answers'', PRef 1)],
        ODict [(py ''questions'', PRef 3)]] \<and>
   fst (snd (upload_questions (sample_env (py ''[]'') (py ''[]'') (JArr []) 201) sample_store
     (PRef 2))) = [PRef 5]"
proof -
  have l: "heap_get sample_store 2 = Some (OList [PRef 0])"
    by (simp add: heap_get_def sample_store_def)
  have n: "[PRef 0] \<noteq> []" by simp
  have r: "reshaped sample_store (PRef 0) =
      Some [(py ''text'', PStr (py ''Q'')), (py ''answer'', PStr (py ''A'')),
            (py ''category'', PStr (py ''C'')), (py ''filler_answers'', PRef 1)]"
    by (simp add: reshaped_def record_of_def four_keys_def heap_get_def sample_store_def py_def)
  have w: "list_all (well_formed sample_store) [PRef 0]"
    by (simp add: well_formed_def r)
  have d: "\<forall>h' p. json_dumps (sample_env (py ''[]'') (py ''[]'') (JArr []) 201) h' p = None"
    by (simp add: sample_env_def)
  have len: "length sample_store = 3" by (simp add: sample_store_def)
  from payload_shape [OF l n w d] obtain ns where
    ns: "map (reshaped sample_store) [PRef 0] = map Some ns"
    and st: "fst (upload_questions (sample_env (py ''[]'') (py ''[]'') (JArr []) 201)
        sample_store (PRef 2))
      = sample_store @ OList (map PRef [Suc (length sample_store) ..<
            Suc (length sample_store) + length [PRef 0]]) #
          map ODict ns @ [ODict [(py ''questions'', PRef (length sample_store))]]"
    and ps: "fst (snd (upload_questions (sample_env (py ''[]'') (py ''[]'') (JArr []) 201)
        sample_store (PRef 2))) = [PRef (Suc (length sample_store + length [PRef 0]))]"
    by blast
  from ns r have ns': "ns = [[(py ''text'', PStr (py ''Q'')), (py ''answer'', PStr (py ''A'')),
            (py ''category'', PStr (py ''C'')), (py ''filler_answers'', PRef 1)]]"
    by (cases ns) auto
  show ?thesis using l w d st ps unfolding ns' len by (simp add: upt_rec)
qed

text \<open>
  Claim C3, as the code has it. For a non-empty list of well-formed records, and a log
  line on whose payload \<^verbatim>\<open>json.dumps\<close> does not raise, \<open>upload_questions\<close> makes one request
  and returns \<open>True\<close> exactly when the request completes with a status outside 400 to
  599: every 2xx status gives \<open>True\<close>, and so does a status such as 304, which
  \<^verbatim>\<open>raise_for_status\<close> lets pass. For a status from 400 to 599, and when the request raises
  an exception of the requests library (connection error, timeout), it returns \<open>False\<close>
  when the log lines of its handler can be written to the standard output.
\<close>

theorem status_mapping:
  assumes "heap_get h a = Some (OList qs)" and "qs \<noteq> []" and "list_all (well_formed h) qs"
    and "json_dumps env (fst (upload_questions env h (PRef a)))
           (PRef (Suc (length h + length qs))) = None"
  shows "\<exists>h' p. fst (upload_questions env h (PRef a)) = h' \<and>
      fst (snd (upload_questions env h (PRef a))) = [p] \<and>
      (snd (snd (upload_questions env h (PRef a))) = Inr True \<longleftrightarrow>
         (\<exists>r. post env h' p = Inr r \<and> \<not> (400 \<le> status_code r \<and> status_code r < 600))) \<and>
      (\<forall>r. post env h' p = Inr r \<and> 400 \<le> status_code r \<and> status_code r < 600 \<and>
           handler_lines_encodable env (HTTPError r)
           \<longrightarrow> snd (snd (upload_questions env h (PRef a))) = Inr False) \<and>
      (\<forall>e. post env h' p = Inl e \<and> is_RequestException e \<and> handler_lines_encodable env e
           \<longrightarrow> snd (snd (upload_questions env h (PRef a))) = Inr False)"
proof -
  from well_formed_reshaped [OF assms(3)] obtain ns where ns: "map (reshaped h) qs = map Some ns"
    by blast
  define H where "H = h @ OList (map PRef [Suc (length h) ..< Suc (length h) + length qs]) #
      map ODict ns @ [ODict [(py ''questions'', PRef (length h))]]"
  define p where "p = PRef (Suc (length h + length qs))"
  note up = upload_well_formed [OF assms(1,2) ns H_def p_def, of env]
  have st: "fst (upload_questions env h (PRef a)) = H"
    unfolding up by (simp add: upload_handler_store split: sum.splits option.splits)
  have d: "json_dumps env H p = None" using assms(4) unfolding st p_def .
  have up': "upload_questions env h (PRef a) =
      (case post env H p of
         Inl e \<Rightarrow> upload_handler env H [p] e
       | Inr response \<Rightarrow>
          (case raise_for_status response of
             Some e \<Rightarrow> upload_handler env H [p] e
           | None \<Rightarrow> (H, [p], Inr True)))"
    unfolding up d by simp
  have ps: "fst (snd (upload_questions env h (PRef a))) = [p]"
    unfolding up' by (simp add: upload_handler_store split: sum.splits option.splits)
  have t: "snd (snd (upload_questions env h (PRef a))) = Inr True \<longleftrightarrow>
      (\<exists>r. post env H p = Inr r \<and> \<not> (400 \<le> status_code r \<and> status_code r < 600))"
    unfolding up'
    by (auto simp: raise_for_status_def upload_handler_not_True split: sum.splits)
  have f1: "snd (snd (upload_questions env h (PRef a))) = Inr False"
    if "post env H p = Inr r" "400 \<le> status_code r" "status_code r < 600"
      "handler_lines_encodable env (HTTPError r)" for r
    unfolding up' using that by (simp add: raise_for_status_def upload_handler_logged)
  have f2: "snd (snd (upload_questions env h (PRef a))) = Inr False"
    if "post env H p = Inl e" "is_RequestException e" "handler_lines_encodable env e" for e
    unfolding up' using that by (simp add: upload_handler_logged)
  from st ps t f1 f2 show ?thesis by blast
qed

theorem status_mapping_witness:
  "heap_get sample_store 2 = Some (OList [PRef 0]) \<and>
   list_all (well_formed sample_store) [PRef 0] \<and>
   snd (snd (upload_questions (sample_env (py ''[]'') (py ''[]'') (JArr []) 201) sample_store
     (PRef 2))) = Inr True \<and>
   handler_lines_encodable (sample_env (py ''[]'') (py ''[]'') (JArr []) 500)
     (HTTPError (Response 500 (py ''error''))) \<and>
   snd (snd (upload_questions (sample_env (py ''[]'') (py ''[]'') (JArr []) 500) sample_store
     (PRef 2))) = Inr False \<and>
   is_RequestException Timeout \<and> handler_lines_encodable (raising_env Timeout) Timeout \<and>
   snd (snd (upload_questions (raising_env Timeout) sample_store (PRef 2))) = Inr False"
proof -
  have l: "heap_get sample_store 2 = Some (OList [PRef 0])"
    by (simp add: heap_get_def sample_store_def)
  have n: "[PRef 0] \<noteq> []" by simp
  have w: "list_all (well_formed sample_store) [PRef 0]"
    by (simp add: well_formed_def reshaped_def record_of_def four_keys_def heap_get_def
        sample_store_def py_def)
  have d1: "json_dumps (sample_env (py ''[]'') (py ''[]'') (JArr []) 201) hx px = None"
    and d2: "json_dumps (sample_env (py ''[]'') (py ''[]'') (JArr []) 500) hx px = None"
    and d3: "json_dumps (raising_env Timeout) hx px = None" for hx px
    by (simp_all add: sample_env_def raising_env_def)
  have e2: "handler_lines_encodable (sample_env (py ''[]'') (py ''[]'') (JArr []) 500)
      (HTTPError (Response 500 (py ''error'')))"
    by (simp add: handler_lines_encodable_def encodable_def sample_env_def py_def)
  have e3: "handler_lines_encodable (raising_env Timeout) Timeout"
    by (simp add: handler_lines_encodable_def encodable_def raising_env_def py_def)
  have r1: "snd (snd (upload_questions (sample_env (py ''[]'') (py ''[]'') (JArr []) 201)
      sample_store (PRef 2))) = Inr True"
    using status_mapping [OF l n w d1] by (auto simp: sample_env_def)
  have r2: "snd (snd (upload_questions (sample_env (py ''[]'') (py ''[]'') (JArr []) 500)
      sample_store (PRef 2))) = Inr False"
  proof -
    from status_mapping [OF l n w d2] obtain h' p where
      "\<forall>r. post (sample_env (py ''[]'') (py ''[]'') (JArr []) 500) h' p = Inr r \<and>
           400 \<le> status_code r \<and> status_code r < 600 \<and>
           handler_lines_encodable (sample_env (py ''[]'') (py ''[]'') (JArr []) 500) (HTTPError r)
           \<longrightarrow> snd (snd (upload_questions (sample_env (py ''[]'') (py ''[]'') (JArr []) 500)
                  sample_store (PRef 2))) = Inr False"
      by blast
    moreover have "post (sample_env (py ''[]'') (py ''[]'') (JArr []) 500) h' p
        = Inr (Response 500 (py ''error''))"
      by (simp add: sample_env_def)
    ultimately show ?thesis using e2 by fastforce
  qed
  have r3: "snd (snd (upload_questions (raising_env Timeout) sample_store (PRef 2))) = Inr False"
  proof -
    from status_mapping [OF l n w d3] obtain h' p where
      "\<forall>e. post (raising_env Timeout) h' p = Inl e \<and> is_RequestException e \<and>
           handler_lines_encodable (raising_env Timeout) e
           \<longrightarrow> snd (snd (upload_questions (raising_env Timeout) sample_store (PRef 2)))
                 = Inr False"
      by blast
    moreover have "post (raising_env Timeout) h' p = Inl Timeout"
      by (simp add: raising_env_def)
    ultimately show ?thesis using e3 by fastforce
  qed
  from l w r1 e2 r2 e3 r3 show ?thesis by simp
qed

text \<open>
  The claim as it is stated fails: a response with the status 304 is not a 2xx response,
  and \<open>upload_questions\<close> returns \<open>True\<close> on it.
\<close>

theorem status_304_counterexample:
  "post (sample_env (py ''[]'') (py ''[]'') (JArr []) 304)
     (fst (upload_questions (sample_env (py ''[]'') (py ''[]'') (JArr []) 304) sample_store
        (PRef 2))) (PRef 5) = Inr (Response 304 (py ''error'')) \<and>
   upload_questions (sample_env (py ''[]'') (py ''[]'') (JArr []) 304) sample_store (PRef 2)
     = (sample_store @
        [OList [PRef 4],
         ODict [(py ''text'', PStr (py ''Q'')), (py ''answer'', PStr (py ''A'')),
                (py ''category'', PStr (py ''C'')), (py ''filler_answers'', PRef 1)],
         ODict [(py ''questions'', PRef 3)]],
        [PRef 5], Inr True)"
  by (simp add: upload_defs sample_env_def heap_get_def heap_alloc_def py_def)

section \<open>Properties of the driver\<close>

text \<open>
  Claim C4, as the code has it. When the list generated for a category holds a record
  that lacks one of the four required keys, the \<open>KeyError\<close> of the lookup leaves
  \<open>upload_questions\<close> before any request is made, and it leaves the driver too, whose
  loop has no handler: the run ends at this category with the exception, and no later
  category is processed, whatever categories follow.
\<close>

theorem missing_key_aborts_driver:
  assumes gen: "generate_questions env h category QUESTIONS_PER_CATEGORY 3
                  = (h1, ps, Inr (PRef a))"
    and list: "heap_get h1 a = Some (OList qs)"
    and bad: "\<not> list_all (well_formed h1) qs"
  shows "\<exists>h' k. k \<in> set required_keys \<and>
      upload_questions env h1 (PRef a) = (h', [], Inl (KeyError k)) \<and>
      main_loop env h (category # rest) = (h', [category], Some (KeyError k))"
proof -
  have it: "py_iter h1 (PRef a) = Inr qs" using list by simp
  have "record_of h1 q \<noteq> None" if "q \<in> set qs" for q
    using generated_items [OF gen it that] by (auto simp: record_of_def)
  then have dicts: "list_all (\<lambda>q. record_of h1 q \<noteq> None) qs" by (simp add: list_all_iff)
  have ne: "qs \<noteq> []" using bad by auto
  have b: "py_bool h1 (PRef a) = Inr True" using list ne by simp
  have it1: "py_iter (h1 @ [OList []]) (PRef a) = Inr qs"
    using heap_get_append [OF list, of "[OList []]"] by simp
  have alloc1: "heap_alloc h1 (OList []) = (h1 @ [OList []], length h1)"
    by (simp add: heap_alloc_def)
  from reshape_missing [OF dicts bad, of "[]" "[]"] obtain h' k where
    k: "k \<in> set required_keys"
    and rs: "reshape (h1 @ [OList []]) (length h1) qs = (h', Some (KeyError k))" by auto
  have up: "upload_questions env h1 (PRef a) = (h', [], Inl (KeyError k))"
    unfolding upload_questions_def
    by (simp only: b alloc1 it1 rs sum.case prod.case option.case simp_thms if_False)
  have "main_loop env h (category # rest) = (h', [category], Some (KeyError k))"
    by (simp only: main_loop.simps gen b up sum.case prod.case simp_thms if_False)
  with k up show ?thesis by blast
qed

theorem missing_key_aborts_driver_witness:
  "generate_questions (sample_env (py ''[{}]'') (py ''[{}]'') (JArr [JObj []]) 200) []
      (py ''Science'') QUESTIONS_PER_CATEGORY 3
     = ([ODict [(py ''category'', PStr (py ''Science''))], OList [PRef 0]],
        [build_prompt (py ''Science'') QUESTIONS_PER_CATEGORY 3], Inr (PRef 1)) \<and>
   heap_get [ODict [(py ''category'', PStr (py ''Science''))], OList [PRef 0]] 1
     = Some (OList [PRef 0]) \<and>
   \<not> list_all (well_formed [ODict [(py ''category'', PStr (py ''Science''))], OList [PRef 0]])
       [PRef 0] \<and>
   (\<exists>h' k. k \<in> set required_keys \<and>
      upload_questions (sample_env (py ''[{}]'') (py ''[{}]'') (JArr [JObj []]) 200)
        [ODict [(py ''category'', PStr (py ''Science''))], OList [PRef 0]] (PRef 1)
        = (h', [], Inl (KeyError k)) \<and>
      main_loop (sample_env (py ''[{}]'') (py ''[{}]'') (JArr [JObj []]) 200) []
        (py ''Science'' # [py ''History''])
        = (h', [py ''Science''], Some (KeyError k)))"
proof -
  have g: "generate_questions (sample_env (py ''[{}]'') (py ''[{}]'') (JArr [JObj []]) 200) []
      (py ''Science'') QUESTIONS_PER_CATEGORY 3
     = ([ODict [(py ''category'', PStr (py ''Science''))], OList [PRef 0]],
        [build_prompt (py ''Science'') QUESTIONS_PER_CATEGORY 3], Inr (PRef 1))"
    by (simp add: QUESTIONS_PER_CATEGORY_def run_defs)
  have l: "heap_get [ODict [(py ''category'', PStr (py ''Science''))], OList [PRef 0]] 1
     = Some (OList [PRef 0])"
    by (simp add: heap_get_def)
  have b: "\<not> list_all
      (well_formed [ODict [(py ''category'', PStr (py ''Science''))], OList [PRef 0]]) [PRef 0]"
    by (simp add: well_formed_def reshaped_def record_of_def four_keys_def heap_get_def py_def)
  from missing_key_aborts_driver [OF g l b, of "[py ''History'']"] g l b
  show ?thesis by blast
qed

text \<open>
  The claim as it is stated fails: when the completion for the first category is an
  array with an object that has no \<open>text\<close>, the run ends in the first category with the
  \<open>KeyError\<close>, and none of the four later categories is processed.
\<close>

theorem missing_key_counterexample:
  "fst (snd (main (sample_env (py ''[{}]'') (py ''[{}]'') (JArr [JObj []]) 200) []))
     = [py ''Science''] \<and>
   snd (snd (main (sample_env (py ''[{}]'') (py ''[{}]'') (JArr [JObj []]) 200) []))
     = Some (KeyError (py ''text''))"
  by (simp add: main_def CATEGORIES_def QUESTIONS_PER_CATEGORY_def run_defs upload_defs)

end
